theory Spec2Isabelle
  imports Main "HOL-Library.AList" "HOL-Library.Sublist"
begin

section \<open>Values of the legacy entry and of the target record\<close>

text \<open>
  The transformer of \<^verbatim>\<open>transform/entries/parents.py\<close> reads a legacy entry, a Python
  dictionary decoded from JSON, and builds a fresh dictionary. Values are modelled as a
  JSON datatype. A dictionary is an association list in insertion order (a Python
  dictionary keeps that order; its keys are distinct, and a lookup in the model takes the
  first pair of a key). Numbers are integers; a \<^typ>\<open>char\<close> stands for one character of
  a Python string.
\<close>

datatype json =
    JNull
  | JBool bool
  | JInt int
  | JStr string
  | JList "json list"
  | JDict "(string \<times> json) list"

type_synonym dict = "(string \<times> json) list"

text \<open>
  The exceptions the module can raise: \<^verbatim>\<open>KeyError\<close> with the missing key,
  \<^verbatim>\<open>NoConceptRecidForDraft(draft=entry)\<close> with the offending entry (the class is
  imported from \<^verbatim>\<open>errors\<close>; the call gives it the entry as its one field), and the two
  exceptions of Python's dynamic typing (a method or an operation that the value at hand
  does not support).
\<close>

datatype error =
    KeyError string
  | NoConceptRecidForDraft dict
  | AttributeError
  | TypeError

text \<open>The transformer instance: \<^verbatim>\<open>self.partial\<close> is the only attribute the module reads.\<close>

record transformer =
  partial :: bool

definition then_do :: "error + 'a \<Rightarrow> ('a \<Rightarrow> error + 'b) \<Rightarrow> error + 'b" where
  "then_do m f = (case m of Inl e \<Rightarrow> Inl e | Inr x \<Rightarrow> f x)"

section \<open>The Python operations the module uses\<close>

text \<open>Truth value of an object, as \<^verbatim>\<open>if x:\<close>, \<^verbatim>\<open>not x\<close> and \<^verbatim>\<open>x or y\<close> test it.\<close>

fun truthy :: "json \<Rightarrow> bool" where
  "truthy JNull = False"
| "truthy (JBool b) = b"
| "truthy (JInt n) = (n \<noteq> 0)"
| "truthy (JStr s) = (s \<noteq> [])"
| "truthy (JList xs) = (xs \<noteq> [])"
| "truthy (JDict kvs) = (kvs \<noteq> [])"

definition py_or :: "json \<Rightarrow> json \<Rightarrow> json" where
  "py_or x y = (if truthy x then x else y)"

text \<open>\<^verbatim>\<open>d[k]\<close> on the entry, a dictionary.\<close>

definition dict_getitem :: "dict \<Rightarrow> string \<Rightarrow> error + json" where
  "dict_getitem d k = (case map_of d k of None \<Rightarrow> Inl (KeyError k) | Some v \<Rightarrow> Inr v)"

text \<open>\<^verbatim>\<open>x[k]\<close> with a string key: only a dictionary takes one.\<close>

fun py_getitem :: "json \<Rightarrow> string \<Rightarrow> error + json" where
  "py_getitem (JDict kvs) k = dict_getitem kvs k"
| "py_getitem _ k = Inl TypeError"

text \<open>\<^verbatim>\<open>x.get(k, default)\<close>; \<^verbatim>\<open>x.get(k)\<close> is \<^verbatim>\<open>x.get(k, None)\<close>. Only a dictionary has the method.\<close>

fun py_get_default :: "json \<Rightarrow> string \<Rightarrow> json \<Rightarrow> error + json" where
  "py_get_default (JDict kvs) k d = Inr (case map_of kvs k of None \<Rightarrow> d | Some v \<Rightarrow> v)"
| "py_get_default _ k d = Inl AttributeError"

definition py_get :: "json \<Rightarrow> string \<Rightarrow> error + json" where
  "py_get x k = py_get_default x k JNull"

text \<open>\<^verbatim>\<open>s in x\<close> for a string \<open>s\<close>: a substring test on a string, membership in a list, a key test on a dictionary.\<close>

fun py_in :: "string \<Rightarrow> json \<Rightarrow> error + bool" where
  "py_in s (JStr t) = Inr (sublist s t)"
| "py_in s (JList xs) = Inr (JStr s \<in> set xs)"
| "py_in s (JDict kvs) = Inr (map_of kvs s \<noteq> None)"
| "py_in s _ = Inl TypeError"

text \<open>The elements an iteration over \<open>x\<close> yields: the characters of a string, the keys of a dictionary.\<close>

fun py_iter :: "json \<Rightarrow> error + json list" where
  "py_iter (JList xs) = Inr xs"
| "py_iter (JStr s) = Inr (map (\<lambda>c. JStr [c]) s)"
| "py_iter (JDict kvs) = Inr (map (\<lambda>kv. JStr (fst kv)) kvs)"
| "py_iter _ = Inl TypeError"

text \<open>\<^verbatim>\<open>next(iter(x), None)\<close>.\<close>

definition py_next_iter :: "json \<Rightarrow> error + json" where
  "py_next_iter x = then_do (py_iter x) (\<lambda>xs. Inr (case xs of [] \<Rightarrow> JNull | y # _ \<Rightarrow> y))"

text \<open>\<^verbatim>\<open>x.startswith(prefixes)\<close> with a tuple of prefixes: a method of strings only.\<close>

fun py_startswith :: "json \<Rightarrow> string list \<Rightarrow> error + bool" where
  "py_startswith (JStr s) ps = Inr (list_ex (\<lambda>p. prefix p s) ps)"
| "py_startswith _ ps = Inl AttributeError"

text \<open>\<^verbatim>\<open>d.setdefault(k, v)\<close> and \<^verbatim>\<open>d[k1][k2] = v\<close> on a dictionary; \<^verbatim>\<open>d[k] = v\<close> is \<^const>\<open>AList.update\<close>.\<close>

definition setdefault :: "string \<Rightarrow> json \<Rightarrow> dict \<Rightarrow> dict" where
  "setdefault k v d = (case map_of d k of None \<Rightarrow> AList.update k v d | Some _ \<Rightarrow> d)"

definition setitem2 :: "string \<Rightarrow> string \<Rightarrow> json \<Rightarrow> dict \<Rightarrow> error + dict" where
  "setitem2 k1 k2 v d =
     (case map_of d k1 of
        None \<Rightarrow> Inl (KeyError k1)
      | Some (JDict a) \<Rightarrow> Inr (AList.update k1 (JDict (AList.update k2 v a)) d)
      | Some _ \<Rightarrow> Inl TypeError)"

section \<open>The parent record transformer\<close>

definition ZENODO_DATACITE_PREFIXES :: "string list" where
  "ZENODO_DATACITE_PREFIXES = [''10.5281/'', ''10.5072/'']"

definition IGNORED_COMMUNITIES :: "string list" where
  "IGNORED_COMMUNITIES = [''zenodo'', ''ecfunded'']"

definition schema :: "dict \<Rightarrow> json" where
  "schema entry = JStr ''local://records/parent-v3.0.0.json''"

definition communities :: "dict \<Rightarrow> error + dict" where
  "communities entry =
     then_do (dict_getitem entry ''json'') (\<lambda>j.
     then_do (py_get j ''communities'') (\<lambda>cs.
       if truthy cs then
         then_do (py_iter cs) (\<lambda>xs.
           let slugs = filter (\<lambda>slug. slug \<notin> set (map JStr IGNORED_COMMUNITIES)) xs;
               result = AList.update ''ids'' (JList slugs) []
           in if length slugs = 1
              then Inr (AList.update ''default'' (slugs ! 0) result)
              else Inr (AList.update ''default'' JNull result))
       else Inr []))"

definition pids :: "dict \<Rightarrow> error + dict" where
  "pids entry =
     then_do (dict_getitem entry ''json'') (\<lambda>j.
     then_do (py_getitem j ''$schema'') (\<lambda>sch.
     then_do (py_in ''deposits'' sch) (\<lambda>is_draft.
     then_do (py_get j ''doi'') (\<lambda>doi.
     then_do (py_get j ''conceptdoi'') (\<lambda>conceptdoi.
     then_do (if truthy doi then py_startswith doi ZENODO_DATACITE_PREFIXES else Inr False)
       (\<lambda>recognised.
         if recognised then
           if truthy conceptdoi then
             Inr [(''doi'', JDict [(''client'', JStr ''datacite''),
                                   (''provider'', JStr ''datacite''),
                                   (''identifier'', conceptdoi)])]
           else if \<not> is_draft then
             Inr [(''doi'', JDict [(''provider'', JStr ''legacy''), (''identifier'', JStr [])])]
           else Inr []
         else Inr []))))))"

text \<open>
  Modelled from the spec: \<^verbatim>\<open>_load_partial\<close>, a method of the base class \<^verbatim>\<open>Entry\<close>
  (imported from \<^verbatim>\<open>invenio_rdm_migrator.transform\<close>), is not among the source files. The
  spec's direct-field copy rule: for each of the keys given, copy the value unchanged from
  input to output only if the key is present in the input.
\<close>

fun load_partial :: "dict \<Rightarrow> dict \<Rightarrow> string list \<Rightarrow> dict" where
  "load_partial entry transformed [] = transformed"
| "load_partial entry transformed (key # keys) =
     load_partial entry
       (case map_of entry key of
          None \<Rightarrow> transformed
        | Some v \<Rightarrow> AList.update key v transformed)
       keys"

text \<open>
  \<^verbatim>\<open>transform\<close>. The dictionary stored under \<^verbatim>\<open>transformed["json"]\<close> is one object, changed
  in place by the ownership and access rules after it is stored; nothing reads
  \<^verbatim>\<open>transformed\<close> in between, so the model keeps that dictionary in \<open>tj\<close> and stores its
  last state (the key \<^verbatim>\<open>json\<close> is new in \<^verbatim>\<open>transformed\<close> either way, and comes last).
\<close>

definition transform :: "'a transformer_scheme \<Rightarrow> dict \<Rightarrow> error + dict" where
  "transform self entry =
     (let transformed = load_partial entry [] [''created'', ''updated'', ''version_id''] in
      if map_of entry ''json'' \<noteq> None then
        then_do (dict_getitem entry ''json'') (\<lambda>j.
        then_do (py_get j ''conceptrecid'') (\<lambda>parent_pid.
          if \<not> truthy parent_pid then Inl (NoConceptRecidForDraft entry)
          else
            then_do (communities entry) (\<lambda>comms.
            then_do (pids entry) (\<lambda>ps.
              let tj = [(''$schema'', schema entry),
                        (''id'', parent_pid),
                        (''communities'', JDict comms),
                        (''pids'', JDict ps)] in
              then_do (py_get j ''owners'') (\<lambda>o1.
              let owners = py_or o1 (JList []) in
              then_do (py_get_default j ''_deposit'' (JDict [])) (\<lambda>dep.
              then_do (py_get dep ''owners'') (\<lambda>o2.
              let deposit_owners = py_or o2 (JList []) in
              then_do (py_next_iter (py_or owners deposit_owners)) (\<lambda>owner.
              let tj1 = (if owner \<noteq> JNull
                         then AList.update ''access''
                                (JDict [(''owned_by'', JDict [(''user'', owner)])])
                                (setdefault ''access'' (JDict []) tj)
                         else tj) in
              then_do (py_get j ''access_conditions'') (\<lambda>access_conditions.
              then_do (if truthy access_conditions
                       then setitem2 ''access'' ''settings''
                              (JDict [(''allow_user_requests'', JBool True),
                                      (''allow_guest_requests'', JBool True),
                                      (''accept_conditions_text'', access_conditions),
                                      (''secret_link_expiration'', JInt 30)])
                              (setdefault ''access'' (JDict []) tj1)
                       else Inr tj1) (\<lambda>tj2.
                Inr (AList.update ''json'' (JDict tj2) transformed)))))))))))
      else if \<not> partial self then Inl (KeyError ''json'')
      else Inr transformed)"

section \<open>Reading a target record and a legacy entry\<close>

text \<open>The value under a path of keys in nested dictionaries, if every key of the path is there.\<close>

fun lookup_path :: "string list \<Rightarrow> json \<Rightarrow> json option" where
  "lookup_path [] v = Some v"
| "lookup_path (k # ks) (JDict d) =
     (case map_of d k of None \<Rightarrow> None | Some v \<Rightarrow> lookup_path ks v)"
| "lookup_path (k # ks) _ = None"

text \<open>What \<^verbatim>\<open>d.get(k)\<close> returns on a dictionary: the value, or \<^verbatim>\<open>None\<close> for an absent key.\<close>

definition field :: "dict \<Rightarrow> string \<Rightarrow> json" where
  "field j k = (case map_of j k of None \<Rightarrow> JNull | Some v \<Rightarrow> v)"

text \<open>An optional sequence of the data model: the key is absent, or holds a list.\<close>

definition optional_sequence :: "json option \<Rightarrow> bool" where
  "optional_sequence v = (case v of None \<Rightarrow> True | Some (JList xs) \<Rightarrow> True | Some _ \<Rightarrow> False)"

text \<open>The communities rule in the spec's words: the slugs left once the reserved ones are removed.\<close>

definition eligible :: "json list \<Rightarrow> json list" where
  "eligible xs = filter (\<lambda>slug. slug \<noteq> JStr ''zenodo'' \<and> slug \<noteq> JStr ''ecfunded'') xs"

text \<open>The PID rule in the spec's words: a DOI string that starts with a recognised prefix.\<close>

fun recognised_doi :: "json \<Rightarrow> bool" where
  "recognised_doi (JStr d) = (prefix ''10.5281/'' d \<or> prefix ''10.5072/'' d)"
| "recognised_doi _ = False"

text \<open>
  The ownership rule in the spec's words: the first element of \<open>owners\<close> if that sequence is
  non-empty, otherwise the first element of \<open>_deposit.owners\<close> if non-empty, otherwise no
  owner.
\<close>

definition items :: "json option \<Rightarrow> json list" where
  "items v = (case v of Some (JList xs) \<Rightarrow> xs | _ \<Rightarrow> [])"

definition deposit_owners :: "dict \<Rightarrow> json option" where
  "deposit_owners j =
     (case map_of j ''_deposit'' of Some (JDict d) \<Rightarrow> map_of d ''owners'' | _ \<Rightarrow> None)"

definition resolved_owner :: "dict \<Rightarrow> json option" where
  "resolved_owner j =
     (case items (map_of j ''owners'') of
        x # _ \<Rightarrow> Some x
      | [] \<Rightarrow> (case items (deposit_owners j) of y # _ \<Rightarrow> Some y | [] \<Rightarrow> None))"

section \<open>The steps of \<open>transform\<close> on a present \<open>json\<close> section\<close>

text \<open>Lines 98 to 100 of the source: the owner, or \<^verbatim>\<open>None\<close>.\<close>

definition owner_of :: "json \<Rightarrow> error + json" where
  "owner_of j =
     then_do (py_get j ''owners'') (\<lambda>o1.
     then_do (py_get_default j ''_deposit'' (JDict [])) (\<lambda>dep.
     then_do (py_get dep ''owners'') (\<lambda>o2.
       py_next_iter (py_or (py_or o1 (JList [])) (py_or o2 (JList []))))))"

definition settings_of :: "json \<Rightarrow> json" where
  "settings_of access_conditions =
     JDict [(''allow_user_requests'', JBool True),
            (''allow_guest_requests'', JBool True),
            (''accept_conditions_text'', access_conditions),
            (''secret_link_expiration'', JInt 30)]"

definition access_of :: "json \<Rightarrow> json \<Rightarrow> dict" where
  "access_of owner ac =
     (if owner \<noteq> JNull then [(''owned_by'', JDict [(''user'', owner)])] else []) @
     (if truthy ac then [(''settings'', settings_of ac)] else [])"

definition json_of :: "dict \<Rightarrow> json \<Rightarrow> dict \<Rightarrow> dict \<Rightarrow> json \<Rightarrow> json \<Rightarrow> dict" where
  "json_of entry pid comms ps owner ac =
     [(''$schema'', schema entry), (''id'', pid),
      (''communities'', JDict comms), (''pids'', JDict ps)] @
     (if owner \<noteq> JNull \<or> truthy ac then [(''access'', JDict (access_of owner ac))] else [])"

section \<open>Basic facts\<close>

lemma then_do_Inl [simp]: "then_do (Inl e) f = Inl e"
  by (simp add: then_do_def)

lemma then_do_Inr [simp]: "then_do (Inr x) f = f x"
  by (simp add: then_do_def)

lemma then_do_eq_Inr: "then_do m f = Inr y \<longleftrightarrow> (\<exists>x. m = Inr x \<and> f x = Inr y)"
  by (cases m) simp_all

lemma py_get_JDict [simp]: "py_get (JDict j) k = Inr (field j k)"
  by (simp add: py_get_def field_def)

lemma map_of_load_partial:
  "map_of (load_partial entry t ks) k =
     (if k \<in> set ks \<and> map_of entry k \<noteq> None then map_of entry k else map_of t k)"
  by (induction ks arbitrary: t) (auto simp: update_conv' split: option.splits)

text \<open>With a \<open>json\<close> section, \<open>transform\<close> is the sequence of its rules; the output is explicit.\<close>

lemma transform_json_present:
  assumes "map_of entry ''json'' = Some j"
  shows "transform self entry =
     then_do (py_get j ''conceptrecid'') (\<lambda>pid.
       if \<not> truthy pid then Inl (NoConceptRecidForDraft entry)
       else
         then_do (communities entry) (\<lambda>comms.
         then_do (pids entry) (\<lambda>ps.
         then_do (owner_of j) (\<lambda>owner.
         then_do (py_get j ''access_conditions'') (\<lambda>ac.
           Inr (AList.update ''json'' (JDict (json_of entry pid comms ps owner ac))
                  (load_partial entry [] [''created'', ''updated'', ''version_id''])))))))"
  using assms
  by (simp add: transform_def Let_def then_do_def dict_getitem_def owner_of_def
      setdefault_def setitem2_def json_of_def access_of_def settings_of_def
      del: load_partial.simps split: sum.splits)

lemma communities_json:
  assumes "map_of entry ''json'' = Some (JDict j)"
  shows "communities entry =
           (if truthy (field j ''communities'') then
              then_do (py_iter (field j ''communities'')) (\<lambda>xs.
                let slugs = filter (\<lambda>slug. slug \<noteq> JStr ''zenodo'' \<and> slug \<noteq> JStr ''ecfunded'') xs
                in Inr [(''ids'', JList slugs),
                        (''default'', if length slugs = 1 then slugs ! 0 else JNull)])
            else Inr [])"
  using assms
  by (simp add: communities_def dict_getitem_def IGNORED_COMMUNITIES_def Let_def then_do_def
      split: sum.splits)

lemma communities_optional_sequence:
  assumes "map_of entry ''json'' = Some (JDict j)" "optional_sequence (map_of j ''communities'')"
  shows "\<exists>comms. communities entry = Inr comms"
  using assms
  by (auto simp: communities_json optional_sequence_def field_def Let_def
      split: option.splits json.splits)

lemma pids_schema_missing:
  assumes "map_of entry ''json'' = Some (JDict j)" "map_of j ''$schema'' = None"
  shows "pids entry = Inl (KeyError ''$schema'')"
  using assms by (simp add: pids_def dict_getitem_def)

text \<open>What a returned output says about the run that built it.\<close>

lemma transform_Inr_json:
  assumes "transform self entry = Inr out" "map_of entry ''json'' = Some (JDict j)"
  obtains comms ps owner where
    "truthy (field j ''conceptrecid'')"
    "communities entry = Inr comms" "pids entry = Inr ps" "owner_of (JDict j) = Inr owner"
    "map_of out ''json'' = Some (JDict (json_of entry (field j ''conceptrecid'') comms ps owner
        (field j ''access_conditions'')))"
  using assms
  by (auto simp: transform_json_present then_do_eq_Inr update_conv'
      simp del: load_partial.simps split: if_splits)

lemma lookup_json_of [simp]:
  "map_of (json_of entry pid comms ps owner ac) ''communities'' = Some (JDict comms)"
  "map_of (json_of entry pid comms ps owner ac) ''pids'' = Some (JDict ps)"
  "map_of (json_of entry pid comms ps owner ac) ''id'' = Some pid"
  "map_of (json_of entry pid comms ps owner ac) ''$schema'' = Some (schema entry)"
  "map_of (json_of entry pid comms ps owner ac) ''access'' =
     (if owner \<noteq> JNull \<or> truthy ac then Some (JDict (access_of owner ac)) else None)"
  by (simp_all add: json_of_def)

lemma communities_JList:
  assumes "map_of entry ''json'' = Some (JDict j)" "map_of j ''communities'' = Some (JList xs)"
  shows "communities entry =
     Inr (if xs = [] then []
          else [(''ids'', JList (eligible xs)),
                (''default'', if length (eligible xs) = 1 then eligible xs ! 0 else JNull)])"
  using assms by (simp add: communities_json field_def eligible_def Let_def)

lemma communities_absent:
  assumes "map_of entry ''json'' = Some (JDict j)" "map_of j ''communities'' = None"
  shows "communities entry = Inr []"
  using assms by (simp add: communities_json field_def)

lemma pids_string_schema:
  assumes "map_of entry ''json'' = Some (JDict j)" "map_of j ''$schema'' = Some (JStr sch)"
    and "pids entry = Inr ps"
  shows "ps =
     (if recognised_doi (field j ''doi'') then
        if truthy (field j ''conceptdoi'') then
          [(''doi'', JDict [(''client'', JStr ''datacite''), (''provider'', JStr ''datacite''),
                            (''identifier'', field j ''conceptdoi'')])]
        else if \<not> sublist ''deposits'' sch then
          [(''doi'', JDict [(''provider'', JStr ''legacy''), (''identifier'', JStr [])])]
        else []
      else [])"
proof (cases "field j ''doi''")
  case (JStr d)
  with assms show ?thesis
    by (auto simp: pids_def dict_getitem_def ZENODO_DATACITE_PREFIXES_def split: if_splits)
qed (use assms in \<open>auto simp: pids_def dict_getitem_def split: if_splits\<close>)

lemma owner_of_sequences:
  assumes "optional_sequence (map_of j ''owners'')" "optional_sequence (deposit_owners j)"
    and "owner_of (JDict j) = Inr owner"
  shows "owner = (case resolved_owner j of None \<Rightarrow> JNull | Some u \<Rightarrow> u)"
  using assms
  by (auto simp: owner_of_def optional_sequence_def deposit_owners_def resolved_owner_def
      items_def field_def py_or_def py_next_iter_def then_do_eq_Inr py_get_def
      split: option.splits json.splits list.splits if_splits)

text \<open>
  Two entries that agree on every key \<open>transform\<close> reads, and resolve the same owner, are
  transformed alike.
\<close>

lemma load_partial_cong:
  assumes "\<forall>k \<in> set ks. map_of e' k = map_of e k"
  shows "load_partial e' t ks = load_partial e t ks"
  using assms by (induction ks arbitrary: t) simp_all

lemma pids_cong:
  assumes "map_of e ''json'' = Some (JDict j)" "map_of e' ''json'' = Some (JDict j')"
    and "map_of j' ''$schema'' = map_of j ''$schema''"
    and "map_of j' ''doi'' = map_of j ''doi''"
    and "map_of j' ''conceptdoi'' = map_of j ''conceptdoi''"
  shows "pids e' = pids e"
  using assms by (simp add: pids_def dict_getitem_def field_def)

lemma communities_cong:
  assumes "map_of e ''json'' = Some (JDict j)" "map_of e' ''json'' = Some (JDict j')"
    and "map_of j' ''communities'' = map_of j ''communities''"
  shows "communities e' = communities e"
  using assms by (simp add: communities_json field_def)

lemma transform_cong:
  assumes e: "map_of e ''json'' = Some (JDict j)" and e': "map_of e' ''json'' = Some (JDict j')"
    and top: "map_of e' ''created'' = map_of e ''created''"
      "map_of e' ''updated'' = map_of e ''updated''"
      "map_of e' ''version_id'' = map_of e ''version_id''"
    and sub: "map_of j' ''conceptrecid'' = map_of j ''conceptrecid''"
      "map_of j' ''communities'' = map_of j ''communities''"
      "map_of j' ''$schema'' = map_of j ''$schema''"
      "map_of j' ''doi'' = map_of j ''doi''"
      "map_of j' ''conceptdoi'' = map_of j ''conceptdoi''"
      "map_of j' ''access_conditions'' = map_of j ''access_conditions''"
    and owner: "owner_of (JDict j') = owner_of (JDict j)"
    and pid: "truthy (field j ''conceptrecid'')"
  shows "transform self e' = transform self e"
proof -
  have c: "communities e' = communities e"
    using e e' sub(2) by (rule communities_cong)
  have p: "pids e' = pids e"
    using e e' sub(3,4,5) by (rule pids_cong)
  have l: "load_partial e' [] [''created'', ''updated'', ''version_id''] =
      load_partial e [] [''created'', ''updated'', ''version_id'']"
    by (rule load_partial_cong) (simp add: top)
  have f: "field j' ''conceptrecid'' = field j ''conceptrecid''"
    "field j' ''access_conditions'' = field j ''access_conditions''"
    using sub by (simp_all add: field_def)
  have s: "json_of e' = json_of e"
    by (simp add: json_of_def schema_def fun_eq_iff)
  show ?thesis
    unfolding transform_json_present [OF e] transform_json_present [OF e'] py_get_JDict
      c p l f s owner then_do_Inr
    by (simp only: pid if_False not_True_eq_False)
qed

lemma owner_of_first_owner:
  assumes "map_of j ''owners'' = Some (JList (x # rest))"
  shows "owner_of (JDict (AList.update ''owners'' (JList [x]) j)) = owner_of (JDict j)"
  using assms
  by (simp add: owner_of_def field_def update_conv' py_or_def py_next_iter_def)

lemma owner_of_first_deposit_owner:
  assumes "map_of j ''_deposit'' = Some (JDict d)" "map_of d ''owners'' = Some (JList (y # rest))"
  shows "owner_of (JDict (AList.update ''_deposit''
            (JDict (AList.update ''owners'' (JList [y]) d)) j)) = owner_of (JDict j)"
  using assms
  by (simp add: owner_of_def field_def update_conv' py_or_def py_next_iter_def)

lemma drop_other_owners:
  assumes "transform self entry = Inr out" "map_of entry ''json'' = Some (JDict j)"
    and "map_of j ''owners'' = Some (JList (x # rest))"
  shows "transform self
           (AList.update ''json'' (JDict (AList.update ''owners'' (JList [x]) j)) entry) = Inr out"
proof -
  have "truthy (field j ''conceptrecid'')"
    using assms(1,2) by (rule transform_Inr_json)
  then have "transform self
       (AList.update ''json'' (JDict (AList.update ''owners'' (JList [x]) j)) entry) =
     transform self entry"
    using assms(2) owner_of_first_owner [OF assms(3)]
    by (intro transform_cong [where e = entry and j = j
          and j' = "AList.update ''owners'' (JList [x]) j"]) (simp_all add: update_conv')
  with assms(1) show ?thesis by simp
qed

lemma drop_other_deposit_owners:
  assumes "transform self entry = Inr out" "map_of entry ''json'' = Some (JDict j)"
    and "map_of j ''_deposit'' = Some (JDict d)" "map_of d ''owners'' = Some (JList (y # rest))"
  shows "transform self
           (AList.update ''json''
              (JDict (AList.update ''_deposit'' (JDict (AList.update ''owners'' (JList [y]) d)) j))
              entry) = Inr out"
proof -
  have "truthy (field j ''conceptrecid'')"
    using assms(1,2) by (rule transform_Inr_json)
  then have "transform self
       (AList.update ''json''
              (JDict (AList.update ''_deposit'' (JDict (AList.update ''owners'' (JList [y]) d)) j))
              entry) =
     transform self entry"
    using assms(2) owner_of_first_deposit_owner [OF assms(3,4)]
    by (intro transform_cong [where e = entry and j = j
          and j' = "AList.update ''_deposit'' (JDict (AList.update ''owners'' (JList [y]) d)) j"])
       (simp_all add: update_conv')
  with assms(1) show ?thesis by simp
qed

text \<open>
  \<open>transform\<close> returns an output on every entry whose \<open>json\<close> section follows the data
  model: a non-empty \<open>conceptrecid\<close>, a string \<open>$schema\<close>, \<open>doi\<close> absent or a string,
  \<open>communities\<close>, \<open>owners\<close> and \<open>_deposit.owners\<close> absent or sequences.
\<close>

lemma pids_returns:
  assumes "map_of entry ''json'' = Some (JDict j)"
    and "map_of j ''$schema'' = Some (JStr sch)"
    and "map_of j ''doi'' = None \<or> map_of j ''doi'' = Some (JStr d)"
  shows "\<exists>ps. pids entry = Inr ps"
  using assms by (auto simp: pids_def dict_getitem_def field_def)

lemma owner_of_returns:
  assumes "optional_sequence (map_of j ''owners'')"
    and "map_of j ''_deposit'' = None \<or> map_of j ''_deposit'' = Some (JDict dep)"
    and "optional_sequence (deposit_owners j)"
  shows "\<exists>owner. owner_of (JDict j) = Inr owner"
  using assms
  by (auto simp: owner_of_def optional_sequence_def deposit_owners_def field_def py_or_def
      py_next_iter_def split: option.splits json.splits)

lemma transform_returns:
  assumes "map_of entry ''json'' = Some (JDict j)"
    and "truthy (field j ''conceptrecid'')"
    and "optional_sequence (map_of j ''communities'')"
    and "map_of j ''$schema'' = Some (JStr sch)"
    and "map_of j ''doi'' = None \<or> map_of j ''doi'' = Some (JStr d)"
    and "optional_sequence (map_of j ''owners'')"
    and "map_of j ''_deposit'' = None \<or> map_of j ''_deposit'' = Some (JDict dep)"
    and "optional_sequence (deposit_owners j)"
  shows "\<exists>out. transform self entry = Inr out"
proof -
  obtain comms where "communities entry = Inr comms"
    using communities_optional_sequence [OF assms(1,3)] by blast
  moreover obtain ps where "pids entry = Inr ps"
    using pids_returns [OF assms(1,4,5)] by blast
  moreover obtain owner where "owner_of (JDict j) = Inr owner"
    using owner_of_returns [OF assms(6,7,8)] by blast
  ultimately show ?thesis
    using assms(1,2) by (simp add: transform_json_present del: load_partial.simps)
qed

text \<open>The equations that evaluate \<open>transform\<close> on a concrete entry.\<close>

lemmas transform_eval =
  transform_def communities_def pids_def then_do_def dict_getitem_def py_get_def py_or_def
  py_next_iter_def setdefault_def setitem2_def schema_def field_def Let_def
  IGNORED_COMMUNITIES_def ZENODO_DATACITE_PREFIXES_def sublist_Cons_right

section \<open>Failures\<close>

text \<open>
  C1. An entry that has the key \<open>json\<close> (a mapping) without the key \<open>conceptrecid\<close> makes
  \<open>transform\<close> raise \<open>NoConceptRecidForDraft\<close>, the failure that carries the entry itself;
  the result is that failure, so no output mapping is returned. This holds in partial and
  in full mode.
\<close>

theorem missing_conceptrecid_raises:
  assumes "map_of entry ''json'' = Some (JDict j)"
    and "map_of j ''conceptrecid'' = None"
  shows "transform self entry = Inl (NoConceptRecidForDraft entry)"
  using assms by (simp add: transform_json_present field_def)

theorem missing_conceptrecid_raises_witness:
  "transform \<lparr>partial = False\<rparr>
     [(''created'', JStr ''2020-01-01''),
      (''json'', JDict [(''$schema'', JStr ''records/record-v1.0.0.json''),
                        (''doi'', JStr ''10.5281/zenodo.123'')])] =
   Inl (NoConceptRecidForDraft
     [(''created'', JStr ''2020-01-01''),
      (''json'', JDict [(''$schema'', JStr ''records/record-v1.0.0.json''),
                        (''doi'', JStr ''10.5281/zenodo.123'')])])"
  by (rule missing_conceptrecid_raises
        [where j = "[(''$schema'', JStr ''records/record-v1.0.0.json''),
                     (''doi'', JStr ''10.5281/zenodo.123'')]"]) simp_all

text \<open>
  C10. An entry whose \<open>json\<close> section has a non-empty \<open>conceptrecid\<close> (and communities that
  are absent or a sequence) but no key \<open>$schema\<close> makes \<open>transform\<close> raise
  \<open>KeyError\<close> for \<open>$schema\<close>: the PID rule reads the key before it looks at \<open>doi\<close>, so the
  failure does not depend on a DOI being there.
\<close>

theorem missing_schema_raises_KeyError:
  assumes "map_of entry ''json'' = Some (JDict j)"
    and "truthy (field j ''conceptrecid'')"
    and "optional_sequence (map_of j ''communities'')"
    and "map_of j ''$schema'' = None"
  shows "transform self entry = Inl (KeyError ''$schema'')"
proof -
  obtain comms where "communities entry = Inr comms"
    using communities_optional_sequence [OF assms(1,3)] by blast
  then show ?thesis
    using assms by (simp add: transform_json_present pids_schema_missing)
qed

theorem missing_schema_raises_KeyError_witness:
  "transform \<lparr>partial = True\<rparr>
     [(''json'', JDict [(''conceptrecid'', JStr ''100''),
                        (''communities'', JList [JStr ''physics''])])] =
   Inl (KeyError ''$schema'')"
  by (rule missing_schema_raises_KeyError
        [where j = "[(''conceptrecid'', JStr ''100''),
                     (''communities'', JList [JStr ''physics''])]"])
     (simp_all add: field_def optional_sequence_def)

text \<open>
  C7. An entry without the key \<open>json\<close>: in partial mode \<open>transform\<close> returns an output
  whose keys are exactly those of \<open>created\<close>, \<open>updated\<close>, \<open>version_id\<close> that the entry has,
  each with the entry's value, and no key \<open>json\<close>; in full mode it raises the generic
  \<open>KeyError\<close> for \<open>json\<close>, not \<open>NoConceptRecidForDraft\<close>.
\<close>

theorem json_absent:
  assumes "map_of entry ''json'' = None"
  shows "if partial self
         then \<exists>out. transform self entry = Inr out \<and> map_of out ''json'' = None \<and>
                (\<forall>k. map_of out k =
                   (if k \<in> {''created'', ''updated'', ''version_id''} then map_of entry k
                    else None))
         else transform self entry = Inl (KeyError ''json'')"
  using assms by (auto simp: transform_def map_of_load_partial simp del: load_partial.simps)

theorem json_absent_witness:
  "(\<exists>out. transform \<lparr>partial = True\<rparr>
            [(''version_id'', JInt 3), (''created'', JStr ''2020-01-01''), (''title'', JStr ''t'')]
          = Inr out \<and> map_of out ''json'' = None \<and> map_of out ''title'' = None \<and>
          map_of out ''version_id'' = Some (JInt 3) \<and> map_of out ''updated'' = None) \<and>
   transform \<lparr>partial = False\<rparr>
     [(''version_id'', JInt 3), (''created'', JStr ''2020-01-01''), (''title'', JStr ''t'')]
   = Inl (KeyError ''json'')"
proof -
  let ?e = "[(''version_id'', JInt 3), (''created'', JStr ''2020-01-01''), (''title'', JStr ''t'')]"
  have absent: "map_of ?e ''json'' = None"
    by simp
  from json_absent [OF absent, of "\<lparr>partial = True\<rparr>"]
  obtain out where out: "transform \<lparr>partial = True\<rparr> ?e = Inr out" "map_of out ''json'' = None"
    and keys: "\<forall>k. map_of out k =
      (if k \<in> {''created'', ''updated'', ''version_id''} then map_of ?e k else None)"
    by auto
  from keys have "map_of out ''title'' = None" "map_of out ''version_id'' = Some (JInt 3)"
    "map_of out ''updated'' = None"
    by simp_all
  moreover from json_absent [OF absent, of "\<lparr>partial = False\<rparr>"]
  have "transform \<lparr>partial = False\<rparr> ?e = Inl (KeyError ''json'')"
    by simp
  ultimately show ?thesis
    using out by blast
qed

section \<open>Direct fields\<close>

text \<open>
  C8. Whenever \<open>transform\<close> returns an output, each of the keys \<open>created\<close>, \<open>updated\<close>,
  \<open>version_id\<close> is in the output exactly when it is in the entry, and then with the
  entry's value unchanged: the lookups of the key in the output and in the entry agree.
\<close>

theorem direct_fields_copied:
  assumes "transform self entry = Inr out"
    and "k \<in> {''created'', ''updated'', ''version_id''}"
  shows "map_of out k = map_of entry k"
proof (cases "map_of entry ''json''")
  case None
  with assms show ?thesis
    by (auto simp: transform_def map_of_load_partial simp del: load_partial.simps
        split: if_splits)
next
  case (Some jv)
  with assms show ?thesis
    by (auto simp: transform_json_present then_do_eq_Inr update_conv' map_of_load_partial
        simp del: load_partial.simps split: if_splits)
qed

theorem direct_fields_copied_witness:
  "transform \<lparr>partial = False\<rparr>
     [(''created'', JStr ''2020-01-01''), (''version_id'', JInt 3),
      (''json'', JDict [(''$schema'', JStr ''records/record-v1.0.0.json''),
                        (''conceptrecid'', JStr ''100'')])] =
   Inr [(''created'', JStr ''2020-01-01''), (''version_id'', JInt 3),
        (''json'', JDict [(''$schema'', JStr ''local://records/parent-v3.0.0.json''),
                          (''id'', JStr ''100''),
                          (''communities'', JDict []),
                          (''pids'', JDict [])])] \<and>
   map_of [(''created'', JStr ''2020-01-01''), (''version_id'', JInt 3),
        (''json'', JDict [(''$schema'', JStr ''local://records/parent-v3.0.0.json''),
                          (''id'', JStr ''100''),
                          (''communities'', JDict []),
                          (''pids'', JDict [])])] ''version_id'' = Some (JInt 3)"
proof -
  let ?e = "[(''created'', JStr ''2020-01-01''), (''version_id'', JInt 3),
      (''json'', JDict [(''$schema'', JStr ''records/record-v1.0.0.json''),
                        (''conceptrecid'', JStr ''100'')])]"
  let ?out = "[(''created'', JStr ''2020-01-01''), (''version_id'', JInt 3),
        (''json'', JDict [(''$schema'', JStr ''local://records/parent-v3.0.0.json''),
                          (''id'', JStr ''100''),
                          (''communities'', JDict []),
                          (''pids'', JDict [])])]"
  have run: "transform \<lparr>partial = False\<rparr> ?e = Inr ?out"
    by (simp add: transform_eval)
  from direct_fields_copied [OF run, of "''version_id''"]
  have "map_of ?out ''version_id'' = map_of ?e ''version_id''"
    by simp
  then show ?thesis
    using run by simp
qed

section \<open>Communities\<close>

text \<open>
  C5. Whenever \<open>transform\<close> returns an output for an entry whose \<open>json.communities\<close> is a
  sequence that still has a slug once \<open>zenodo\<close> and \<open>ecfunded\<close> are removed, the
  \<open>communities\<close> object of the output has exactly the keys \<open>ids\<close> and \<open>default\<close>: \<open>ids\<close> is
  the filtered sequence (a filter keeps the order and the duplicates of what it lets
  through), and \<open>default\<close> is the remaining slug when exactly one remains and is present
  with the value null when two or more remain.
\<close>

theorem communities_kept:
  assumes "transform self entry = Inr out"
    and "map_of entry ''json'' = Some (JDict j)"
    and "map_of j ''communities'' = Some (JList xs)"
    and "eligible xs \<noteq> []"
  shows "lookup_path [''json'', ''communities''] (JDict out) =
           Some (JDict [(''ids'', JList (eligible xs)),
                        (''default'', case eligible xs of [slug] \<Rightarrow> slug | _ \<Rightarrow> JNull)])"
proof -
  from assms(1,2) obtain comms ps owner where
    c: "communities entry = Inr comms" and
    o: "map_of out ''json'' = Some (JDict (json_of entry (field j ''conceptrecid'') comms ps owner
        (field j ''access_conditions'')))"
    by (rule transform_Inr_json)
  from assms(4) have "xs \<noteq> []"
    by (auto simp: eligible_def)
  with c assms(2,3) have "comms = [(''ids'', JList (eligible xs)),
      (''default'', if length (eligible xs) = 1 then eligible xs ! 0 else JNull)]"
    by (simp add: communities_JList)
  moreover have "(if length (eligible xs) = 1 then eligible xs ! 0 else JNull) =
      (case eligible xs of [slug] \<Rightarrow> slug | _ \<Rightarrow> JNull)"
    by (simp split: list.splits)
  ultimately show ?thesis
    using o by simp
qed

theorem communities_kept_witness:
  "(\<exists>out. transform \<lparr>partial = False\<rparr>
       [(''json'', JDict [(''$schema'', JStr ''records/record-v1.0.0.json''),
                          (''conceptrecid'', JStr ''100''),
                          (''communities'',
                             JList [JStr ''zenodo'', JStr ''physics'', JStr ''ecfunded''])])]
       = Inr out \<and>
     lookup_path [''json'', ''communities''] (JDict out) =
       Some (JDict [(''ids'', JList [JStr ''physics'']), (''default'', JStr ''physics'')])) \<and>
   (\<exists>out. transform \<lparr>partial = False\<rparr>
       [(''json'', JDict [(''$schema'', JStr ''records/record-v1.0.0.json''),
                          (''conceptrecid'', JStr ''100''),
                          (''communities'',
                             JList [JStr ''bio'', JStr ''chem'', JStr ''bio''])])]
       = Inr out \<and>
     lookup_path [''json'', ''communities''] (JDict out) =
       Some (JDict [(''ids'', JList [JStr ''bio'', JStr ''chem'', JStr ''bio'']),
                    (''default'', JNull)]))"
proof -
  let ?j1 = "[(''$schema'', JStr ''records/record-v1.0.0.json''), (''conceptrecid'', JStr ''100''),
     (''communities'', JList [JStr ''zenodo'', JStr ''physics'', JStr ''ecfunded''])]"
  let ?j2 = "[(''$schema'', JStr ''records/record-v1.0.0.json''), (''conceptrecid'', JStr ''100''),
     (''communities'', JList [JStr ''bio'', JStr ''chem'', JStr ''bio''])]"
  obtain out1 where run1: "transform \<lparr>partial = False\<rparr> [(''json'', JDict ?j1)] = Inr out1"
    by (simp add: transform_eval)
  obtain out2 where run2: "transform \<lparr>partial = False\<rparr> [(''json'', JDict ?j2)] = Inr out2"
    by (simp add: transform_eval)
  from communities_kept [OF run1, of ?j1 "[JStr ''zenodo'', JStr ''physics'', JStr ''ecfunded'']"]
  have "lookup_path [''json'', ''communities''] (JDict out1) =
       Some (JDict [(''ids'', JList [JStr ''physics'']), (''default'', JStr ''physics'')])"
    by (simp add: eligible_def)
  moreover
  from communities_kept [OF run2, of ?j2 "[JStr ''bio'', JStr ''chem'', JStr ''bio'']"]
  have "lookup_path [''json'', ''communities''] (JDict out2) =
       Some (JDict [(''ids'', JList [JStr ''bio'', JStr ''chem'', JStr ''bio'']),
                    (''default'', JNull)])"
    by (simp add: eligible_def)
  ultimately show ?thesis
    using run1 run2 by blast
qed

text \<open>
  C2, as stated, fails: a sequence of reserved slugs only is not empty, so the communities
  rule runs and contributes \<open>ids\<close> (the empty sequence) and \<open>default\<close> (null), not the empty
  object.
\<close>

theorem communities_only_reserved_counterexample:
  "transform \<lparr>partial = False\<rparr>
     [(''json'', JDict [(''$schema'', JStr ''records/record-v1.0.0.json''),
                        (''conceptrecid'', JStr ''100''),
                        (''communities'', JList [JStr ''zenodo'', JStr ''ecfunded''])])] =
   Inr [(''json'', JDict [(''$schema'', JStr ''local://records/parent-v3.0.0.json''),
                          (''id'', JStr ''100''),
                          (''communities'', JDict [(''ids'', JList []), (''default'', JNull)]),
                          (''pids'', JDict [])])] \<and>
   lookup_path [''json'', ''communities'']
     (JDict [(''json'', JDict [(''$schema'', JStr ''local://records/parent-v3.0.0.json''),
                          (''id'', JStr ''100''),
                          (''communities'', JDict [(''ids'', JList []), (''default'', JNull)]),
                          (''pids'', JDict [])])]) \<noteq> Some (JDict [])"
  by (simp add: transform_eval)

text \<open>
  C2, amended. Whenever \<open>transform\<close> returns an output for an entry with \<open>json\<close> present:
  if \<open>communities\<close> is absent or an empty sequence, the \<open>communities\<close> object of the output
  is the empty object, with neither \<open>ids\<close> nor \<open>default\<close>; if it is a non-empty sequence,
  the object has both keys whatever the filter leaves, \<open>ids\<close> being the filtered sequence
  and \<open>default\<close> the remaining slug when exactly one remains and null otherwise (so a
  sequence of reserved slugs only gives \<open>ids\<close> empty and \<open>default\<close> null); and for a
  sequence of slugs (none of them null), \<open>default\<close> holds a slug if and only if exactly one
  eligible slug remains.
\<close>

theorem communities_contribution:
  assumes "transform self entry = Inr out"
    and "map_of entry ''json'' = Some (JDict j)"
  shows "(map_of j ''communities'' = None \<or> map_of j ''communities'' = Some (JList []) \<longrightarrow>
            lookup_path [''json'', ''communities''] (JDict out) = Some (JDict [])) \<and>
         (\<forall>xs. map_of j ''communities'' = Some (JList xs) \<and> xs \<noteq> [] \<longrightarrow>
            lookup_path [''json'', ''communities''] (JDict out) =
              Some (JDict [(''ids'', JList (eligible xs)),
                           (''default'', case eligible xs of [slug] \<Rightarrow> slug | _ \<Rightarrow> JNull)])) \<and>
         (\<forall>xs. map_of j ''communities'' = Some (JList xs) \<and> JNull \<notin> set xs \<longrightarrow>
            ((\<exists>slug. lookup_path [''json'', ''communities'', ''default''] (JDict out) = Some slug \<and>
                     slug \<noteq> JNull) \<longleftrightarrow>
             length (eligible xs) = 1))"
proof -
  from assms obtain comms ps owner where
    c: "communities entry = Inr comms" and
    o: "map_of out ''json'' = Some (JDict (json_of entry (field j ''conceptrecid'') comms ps owner
        (field j ''access_conditions'')))"
    by (rule transform_Inr_json)
  have l: "lookup_path [''json'', ''communities''] (JDict out) = Some (JDict comms)"
    and l': "lookup_path [''json'', ''communities'', ''default''] (JDict out) =
      map_of comms ''default''"
    using o by (simp_all split: option.splits)
  have "lookup_path [''json'', ''communities''] (JDict out) = Some (JDict [])"
    if "map_of j ''communities'' = None \<or> map_of j ''communities'' = Some (JList [])"
    using that c assms(2) unfolding l by (auto simp: communities_absent communities_JList)
  moreover have "lookup_path [''json'', ''communities''] (JDict out) =
              Some (JDict [(''ids'', JList (eligible xs)),
                           (''default'', case eligible xs of [slug] \<Rightarrow> slug | _ \<Rightarrow> JNull)])"
    if "map_of j ''communities'' = Some (JList xs) \<and> xs \<noteq> []" for xs
    using that c assms(2) unfolding l by (auto simp: communities_JList split: list.splits)
  moreover have "(\<exists>slug. lookup_path [''json'', ''communities'', ''default''] (JDict out) = Some slug \<and>
                     slug \<noteq> JNull) \<longleftrightarrow> length (eligible xs) = 1"
    if seq: "map_of j ''communities'' = Some (JList xs) \<and> JNull \<notin> set xs" for xs
  proof (cases "xs = []")
    case True
    with seq c assms(2) show ?thesis
      unfolding l' by (simp add: communities_JList eligible_def)
  next
    case False
    have "eligible xs ! 0 \<noteq> JNull" if "length (eligible xs) = 1"
    proof -
      from that have "eligible xs ! 0 \<in> set (eligible xs)"
        by simp
      then have "eligible xs ! 0 \<in> set xs"
        by (simp add: eligible_def)
      with seq show ?thesis
        by auto
    qed
    with False seq c assms(2) show ?thesis
      unfolding l' by (auto simp: communities_JList split: if_splits)
  qed
  ultimately show ?thesis
    by blast
qed

theorem communities_contribution_witness:
  "(\<exists>out. transform \<lparr>partial = False\<rparr>
       [(''json'', JDict [(''$schema'', JStr ''records/record-v1.0.0.json''),
                          (''conceptrecid'', JStr ''100'')])] = Inr out \<and>
     lookup_path [''json'', ''communities''] (JDict out) = Some (JDict [])) \<and>
   (\<exists>out. transform \<lparr>partial = False\<rparr>
       [(''json'', JDict [(''$schema'', JStr ''records/record-v1.0.0.json''),
                          (''conceptrecid'', JStr ''100''),
                          (''communities'', JList [JStr ''ecfunded''])])] = Inr out \<and>
     lookup_path [''json'', ''communities''] (JDict out) =
       Some (JDict [(''ids'', JList []), (''default'', JNull)]))"
proof -
  let ?j1 = "[(''$schema'', JStr ''records/record-v1.0.0.json''), (''conceptrecid'', JStr ''100'')]"
  let ?j2 = "[(''$schema'', JStr ''records/record-v1.0.0.json''), (''conceptrecid'', JStr ''100''),
     (''communities'', JList [JStr ''ecfunded''])]"
  obtain out1 where run1: "transform \<lparr>partial = False\<rparr> [(''json'', JDict ?j1)] = Inr out1"
    by (simp add: transform_eval)
  obtain out2 where run2: "transform \<lparr>partial = False\<rparr> [(''json'', JDict ?j2)] = Inr out2"
    by (simp add: transform_eval)
  from communities_contribution [OF run1, of ?j1]
  have "lookup_path [''json'', ''communities''] (JDict out1) = Some (JDict [])"
    by simp
  moreover
  from communities_contribution [OF run2, of ?j2]
  have "lookup_path [''json'', ''communities''] (JDict out2) =
       Some (JDict [(''ids'', JList []), (''default'', JNull)])"
    by (simp add: eligible_def)
  ultimately show ?thesis
    using run1 run2 by blast
qed

section \<open>Persistent identifiers\<close>

text \<open>
  C3, as stated, fails on a \<open>conceptdoi\<close> that is present but empty: the PID rule tests
  \<^verbatim>\<open>if conceptdoi:\<close>, so with a recognised \<open>doi\<close> the record that is not a draft gets the
  legacy-shaped value, not the datacite-shaped one with the present \<open>conceptdoi\<close>.
\<close>

theorem pids_empty_conceptdoi_counterexample:
  "transform \<lparr>partial = False\<rparr>
     [(''json'', JDict [(''$schema'', JStr ''records/record-v1.0.0.json''),
                        (''conceptrecid'', JStr ''100''),
                        (''doi'', JStr ''10.5281/zenodo.123''),
                        (''conceptdoi'', JStr [])])] =
   Inr [(''json'', JDict [(''$schema'', JStr ''local://records/parent-v3.0.0.json''),
                          (''id'', JStr ''100''),
                          (''communities'', JDict []),
                          (''pids'', JDict [(''doi'', JDict [(''provider'', JStr ''legacy''),
                                                             (''identifier'', JStr [])])])])]"
  by (simp add: transform_eval)

text \<open>
  C3, amended. Whenever \<open>transform\<close> returns an output for an entry with \<open>json\<close> present
  and \<open>$schema\<close> a string (an output needs a non-empty \<open>conceptrecid\<close> and the key
  \<open>$schema\<close>), the \<open>pids\<close> object of the output is: the datacite-shaped \<open>doi\<close> with the
  \<open>conceptdoi\<close> as identifier if \<open>doi\<close> is a string with a recognised prefix and
  \<open>conceptdoi\<close> is present and non-empty; the legacy-shaped \<open>doi\<close> with the empty
  identifier if \<open>doi\<close> is recognised, \<open>conceptdoi\<close> is absent or empty, and \<open>$schema\<close>
  does not contain \<open>deposits\<close>; the empty object in every other case. The cases exclude each
  other, so the two shapes are never emitted together.
\<close>

theorem pids_case_split:
  assumes "transform self entry = Inr out"
    and "map_of entry ''json'' = Some (JDict j)"
    and "map_of j ''$schema'' = Some (JStr sch)"
  shows "lookup_path [''json'', ''pids''] (JDict out) =
           Some (JDict
             (if recognised_doi (field j ''doi'') then
                if truthy (field j ''conceptdoi'') then
                  [(''doi'', JDict [(''client'', JStr ''datacite''),
                                    (''provider'', JStr ''datacite''),
                                    (''identifier'', field j ''conceptdoi'')])]
                else if \<not> sublist ''deposits'' sch then
                  [(''doi'', JDict [(''provider'', JStr ''legacy''), (''identifier'', JStr [])])]
                else []
              else []))"
proof -
  from assms(1,2) obtain comms ps owner where
    p: "pids entry = Inr ps" and
    o: "map_of out ''json'' = Some (JDict (json_of entry (field j ''conceptrecid'') comms ps owner
        (field j ''access_conditions'')))"
    by (rule transform_Inr_json)
  have "lookup_path [''json'', ''pids''] (JDict out) = Some (JDict ps)"
    using o by simp
  then show ?thesis
    unfolding pids_string_schema [OF assms(2,3) p] .
qed

theorem pids_case_split_witness:
  "(\<exists>out. transform \<lparr>partial = False\<rparr>
       [(''json'', JDict [(''$schema'', JStr ''records/record-v1.0.0.json''),
                          (''conceptrecid'', JStr ''100''),
                          (''doi'', JStr ''10.5281/zenodo.123''),
                          (''conceptdoi'', JStr ''10.5281/zenodo.100'')])] = Inr out \<and>
     lookup_path [''json'', ''pids''] (JDict out) =
       Some (JDict [(''doi'', JDict [(''client'', JStr ''datacite''),
                                     (''provider'', JStr ''datacite''),
                                     (''identifier'', JStr ''10.5281/zenodo.100'')])])) \<and>
   (\<exists>out. transform \<lparr>partial = False\<rparr>
       [(''json'', JDict [(''$schema'', JStr ''deposits/records/record-v1.0.0.json''),
                          (''conceptrecid'', JStr ''100''),
                          (''doi'', JStr ''10.5072/zenodo.123'')])] = Inr out \<and>
     lookup_path [''json'', ''pids''] (JDict out) = Some (JDict []))"
proof -
  let ?j1 = "[(''$schema'', JStr ''records/record-v1.0.0.json''), (''conceptrecid'', JStr ''100''),
     (''doi'', JStr ''10.5281/zenodo.123''), (''conceptdoi'', JStr ''10.5281/zenodo.100'')]"
  let ?j2 = "[(''$schema'', JStr ''deposits/records/record-v1.0.0.json''),
     (''conceptrecid'', JStr ''100''), (''doi'', JStr ''10.5072/zenodo.123'')]"
  obtain out1 where run1: "transform \<lparr>partial = False\<rparr> [(''json'', JDict ?j1)] = Inr out1"
    by (simp add: transform_eval)
  obtain out2 where run2: "transform \<lparr>partial = False\<rparr> [(''json'', JDict ?j2)] = Inr out2"
    by (simp add: transform_eval)
  from pids_case_split [OF run1, of ?j1 "''records/record-v1.0.0.json''"]
  have "lookup_path [''json'', ''pids''] (JDict out1) =
       Some (JDict [(''doi'', JDict [(''client'', JStr ''datacite''),
                                     (''provider'', JStr ''datacite''),
                                     (''identifier'', JStr ''10.5281/zenodo.100'')])])"
    by (simp add: field_def)
  moreover
  from pids_case_split [OF run2, of ?j2 "''deposits/records/record-v1.0.0.json''"]
  have "lookup_path [''json'', ''pids''] (JDict out2) = Some (JDict [])"
    by (simp add: field_def)
  ultimately show ?thesis
    using run1 run2 by blast
qed

section \<open>Ownership and access\<close>

text \<open>
  C6. Whenever \<open>transform\<close> returns an output for an entry with \<open>json\<close> present, whose
  \<open>owners\<close> and \<open>_deposit.owners\<close> are absent or sequences (of identifiers: the owner that
  resolves is not null): \<open>access.owned_by\<close> is the object with \<open>user\<close> set to the first
  element of \<open>owners\<close> if that sequence is non-empty, otherwise to the first element of
  \<open>_deposit.owners\<close> if that is non-empty, and is absent otherwise. The owners beyond the
  first are ignored: the entry with \<open>owners\<close> (or with \<open>_deposit.owners\<close>) cut down to its
  first element is transformed to the same output.
\<close>

theorem owner_resolution:
  assumes "transform self entry = Inr out"
    and "map_of entry ''json'' = Some (JDict j)"
    and "optional_sequence (map_of j ''owners'')"
    and "optional_sequence (deposit_owners j)"
    and "resolved_owner j \<noteq> Some JNull"
  shows "lookup_path [''json'', ''access'', ''owned_by''] (JDict out) =
           (case resolved_owner j of
              None \<Rightarrow> None
            | Some u \<Rightarrow> Some (JDict [(''user'', u)])) \<and>
         (\<forall>x rest. map_of j ''owners'' = Some (JList (x # rest)) \<longrightarrow>
            transform self
              (AList.update ''json'' (JDict (AList.update ''owners'' (JList [x]) j)) entry) =
            Inr out) \<and>
         (\<forall>d y rest. map_of j ''_deposit'' = Some (JDict d) \<and>
              map_of d ''owners'' = Some (JList (y # rest)) \<longrightarrow>
            transform self
              (AList.update ''json''
                 (JDict (AList.update ''_deposit''
                    (JDict (AList.update ''owners'' (JList [y]) d)) j)) entry) =
            Inr out)"
proof -
  from assms(1,2) obtain comms ps owner where
    ow: "owner_of (JDict j) = Inr owner" and
    o: "map_of out ''json'' = Some (JDict (json_of entry (field j ''conceptrecid'') comms ps owner
        (field j ''access_conditions'')))"
    by (rule transform_Inr_json)
  have "owner = (case resolved_owner j of None \<Rightarrow> JNull | Some u \<Rightarrow> u)"
    using assms(3,4) ow by (rule owner_of_sequences)
  with assms(5) o have "lookup_path [''json'', ''access'', ''owned_by''] (JDict out) =
           (case resolved_owner j of
              None \<Rightarrow> None
            | Some u \<Rightarrow> Some (JDict [(''user'', u)]))"
    by (auto simp: access_of_def split: option.splits)
  then show ?thesis
    using drop_other_owners [OF assms(1,2)] drop_other_deposit_owners [OF assms(1,2)]
    by blast
qed

theorem owner_resolution_witness:
  "(\<exists>out. transform \<lparr>partial = False\<rparr>
       [(''json'', JDict [(''$schema'', JStr ''records/record-v1.0.0.json''),
                          (''conceptrecid'', JStr ''100''),
                          (''owners'', JList [JInt 7, JInt 8])])] = Inr out \<and>
     lookup_path [''json'', ''access'', ''owned_by''] (JDict out) =
       Some (JDict [(''user'', JInt 7)]) \<and>
     transform \<lparr>partial = False\<rparr>
       [(''json'', JDict [(''$schema'', JStr ''records/record-v1.0.0.json''),
                          (''conceptrecid'', JStr ''100''),
                          (''owners'', JList [JInt 7])])] = Inr out) \<and>
   (\<exists>out. transform \<lparr>partial = False\<rparr>
       [(''json'', JDict [(''$schema'', JStr ''records/record-v1.0.0.json''),
                          (''conceptrecid'', JStr ''100''),
                          (''owners'', JList []),
                          (''_deposit'', JDict [(''owners'', JList [JInt 42, JInt 43])])])] = Inr out \<and>
     lookup_path [''json'', ''access'', ''owned_by''] (JDict out) =
       Some (JDict [(''user'', JInt 42)])) \<and>
   (\<exists>out. transform \<lparr>partial = False\<rparr>
       [(''json'', JDict [(''$schema'', JStr ''records/record-v1.0.0.json''),
                          (''conceptrecid'', JStr ''100''),
                          (''owners'', JList [])])] = Inr out \<and>
     lookup_path [''json'', ''access'', ''owned_by''] (JDict out) = None)"
proof -
  let ?j1 = "[(''$schema'', JStr ''records/record-v1.0.0.json''), (''conceptrecid'', JStr ''100''),
     (''owners'', JList [JInt 7, JInt 8])]"
  let ?j2 = "[(''$schema'', JStr ''records/record-v1.0.0.json''), (''conceptrecid'', JStr ''100''),
     (''owners'', JList []), (''_deposit'', JDict [(''owners'', JList [JInt 42, JInt 43])])]"
  let ?j3 = "[(''$schema'', JStr ''records/record-v1.0.0.json''), (''conceptrecid'', JStr ''100''),
     (''owners'', JList [])]"
  obtain out1 where run1: "transform \<lparr>partial = False\<rparr> [(''json'', JDict ?j1)] = Inr out1"
    by (simp add: transform_eval)
  obtain out2 where run2: "transform \<lparr>partial = False\<rparr> [(''json'', JDict ?j2)] = Inr out2"
    by (simp add: transform_eval)
  obtain out3 where run3: "transform \<lparr>partial = False\<rparr> [(''json'', JDict ?j3)] = Inr out3"
    by (simp add: transform_eval)
  from owner_resolution [OF run1, of ?j1]
  have "lookup_path [''json'', ''access'', ''owned_by''] (JDict out1) =
       Some (JDict [(''user'', JInt 7)]) \<and>
     transform \<lparr>partial = False\<rparr>
       [(''json'', JDict [(''$schema'', JStr ''records/record-v1.0.0.json''),
                          (''conceptrecid'', JStr ''100''),
                          (''owners'', JList [JInt 7])])] = Inr out1"
    by (simp add: optional_sequence_def deposit_owners_def resolved_owner_def items_def)
  moreover
  from owner_resolution [OF run2, of ?j2]
  have "lookup_path [''json'', ''access'', ''owned_by''] (JDict out2) =
       Some (JDict [(''user'', JInt 42)])"
    by (simp add: optional_sequence_def deposit_owners_def resolved_owner_def items_def)
  moreover
  from owner_resolution [OF run3, of ?j3]
  have "lookup_path [''json'', ''access'', ''owned_by''] (JDict out3) = None"
    by (simp add: optional_sequence_def deposit_owners_def resolved_owner_def items_def)
  ultimately show ?thesis
    using run1 run2 run3 by blast
qed

text \<open>
  C4. Whenever \<open>transform\<close> returns an output for an entry with \<open>json\<close> present in which an
  owner resolves and \<open>access_conditions\<close> is a non-empty string, the \<open>access\<close> object of the
  output holds both contributions and nothing else: \<open>owned_by.user\<close> is the resolved owner,
  and \<open>settings\<close> allows user and guest requests, carries the legacy text unchanged and
  sets \<open>secret_link_expiration\<close> to 30.
\<close>

theorem access_combined:
  assumes "transform self entry = Inr out"
    and "map_of entry ''json'' = Some (JDict j)"
    and "optional_sequence (map_of j ''owners'')"
    and "optional_sequence (deposit_owners j)"
    and "resolved_owner j = Some u"
    and "u \<noteq> JNull"
    and "map_of j ''access_conditions'' = Some (JStr conditions)"
    and "conditions \<noteq> []"
  shows "lookup_path [''json'', ''access''] (JDict out) =
           Some (JDict [(''owned_by'', JDict [(''user'', u)]),
                        (''settings'',
                           JDict [(''allow_user_requests'', JBool True),
                                  (''allow_guest_requests'', JBool True),
                                  (''accept_conditions_text'', JStr conditions),
                                  (''secret_link_expiration'', JInt 30)])])"
proof -
  from assms(1,2) obtain comms ps owner where
    ow: "owner_of (JDict j) = Inr owner" and
    o: "map_of out ''json'' = Some (JDict (json_of entry (field j ''conceptrecid'') comms ps owner
        (field j ''access_conditions'')))"
    by (rule transform_Inr_json)
  have "owner = u"
    using owner_of_sequences [OF assms(3,4) ow] assms(5) by simp
  moreover have "field j ''access_conditions'' = JStr conditions"
    using assms(7) by (simp add: field_def)
  ultimately show ?thesis
    using o assms(6,8) by (simp add: access_of_def settings_of_def)
qed

theorem access_combined_witness:
  "\<exists>out. transform \<lparr>partial = False\<rparr>
       [(''json'', JDict [(''$schema'', JStr ''records/record-v1.0.0.json''),
                          (''conceptrecid'', JStr ''100''),
                          (''owners'', JList [JInt 7]),
                          (''access_conditions'', JStr ''restricted'')])] = Inr out \<and>
     lookup_path [''json'', ''access''] (JDict out) =
       Some (JDict [(''owned_by'', JDict [(''user'', JInt 7)]),
                    (''settings'',
                       JDict [(''allow_user_requests'', JBool True),
                              (''allow_guest_requests'', JBool True),
                              (''accept_conditions_text'', JStr ''restricted''),
                              (''secret_link_expiration'', JInt 30)])])"
proof -
  let ?j = "[(''$schema'', JStr ''records/record-v1.0.0.json''), (''conceptrecid'', JStr ''100''),
     (''owners'', JList [JInt 7]), (''access_conditions'', JStr ''restricted'')]"
  obtain out where run: "transform \<lparr>partial = False\<rparr> [(''json'', JDict ?j)] = Inr out"
    by (simp add: transform_eval)
  from access_combined [OF run, of ?j "JInt 7" "''restricted''"]
  have "lookup_path [''json'', ''access''] (JDict out) =
       Some (JDict [(''owned_by'', JDict [(''user'', JInt 7)]),
                    (''settings'',
                       JDict [(''allow_user_requests'', JBool True),
                              (''allow_guest_requests'', JBool True),
                              (''accept_conditions_text'', JStr ''restricted''),
                              (''secret_link_expiration'', JInt 30)])])"
    by (simp add: optional_sequence_def deposit_owners_def resolved_owner_def items_def)
  then show ?thesis
    using run by blast
qed

end
